theory Spec2Isabelle
  imports Main
begin

section \<open>The toilet locator agent of \<^verbatim>\<open>Agent.py\<close>\<close>

text \<open>
  The class \<^verbatim>\<open>ToiletLocatorAgent\<close> holds a table of bus stops with their nearest
  washroom and answers a free-text query in three steps: \<^verbatim>\<open>extract_location\<close>,
  \<^verbatim>\<open>find_nearest_toilet\<close> and \<^verbatim>\<open>get_google_maps_link\<close>, combined by
  \<^verbatim>\<open>process_query\<close>. The methods are embedded as functions that take the agent
  (\<^verbatim>\<open>self\<close>) and return it next to their value; exceptions are values of a sum type.
\<close>

subsection \<open>Data\<close>

text \<open>
  One row of the dataframe \<^verbatim>\<open>self.df\<close>, with the column names of the source. The
  numeric columns hold numbers of a type \<open>'n\<close> that the agent only copies and prints.
\<close>

record 'n FacilityRecord =
  stop_id :: string
  stop_lat :: 'n
  stop_lon :: 'n
  stop_name :: string
  nearest_washroom_id :: string
  washroom_latitude :: 'n
  washroom_longitude :: 'n
  distance :: 'n
  washroom_address :: string

text \<open>The attributes of the agent: \<^verbatim>\<open>self.df\<close> and \<^verbatim>\<open>self.stop_names\<close>.\<close>

record 'n ToiletLocatorAgent =
  df :: "'n FacilityRecord list"
  stop_names :: "string list"

text \<open>
  The dictionary that \<^verbatim>\<open>find_nearest_toilet\<close> returns always has the same eight
  keys, so it is a record; the fields carry the prefix \<open>info_\<close> because the keys repeat
  column names.
\<close>

record 'n toilet_info =
  info_stop_name :: string
  info_stop_lat :: 'n
  info_stop_lon :: 'n
  info_washroom_id :: string
  info_washroom_lat :: 'n
  info_washroom_lon :: 'n
  info_washroom_address :: string
  info_distance :: 'n

text \<open>
  The dictionary that \<^verbatim>\<open>process_query\<close> returns has different keys on different
  paths, so it is an association list from keys to Python values, in the order of the
  dictionary display. A key that is not in the list is absent from the dictionary; a key
  bound to \<open>PNone\<close> would be present with the value \<^verbatim>\<open>None\<close>.
\<close>

datatype 'n pyval = PNone | PBool bool | PStr string | PNum 'n

type_synonym 'n pydict = "(string \<times> 'n pyval) list"

text \<open>The exceptions that the methods can raise on a table of well-typed rows.\<close>

datatype exn = TypeError | IndexError

subsection \<open>The libraries\<close>

text \<open>
  The agent calls spaCy, NLTK, fuzzywuzzy and the Python runtime. Their functions are
  not part of the program; they are the fields of an environment that every method takes:
  \<^item> \<open>nlp\<close>: the entities \<^verbatim>\<open>nlp(query).ents\<close> as pairs of \<^verbatim>\<open>ent.text\<close> and
    \<^verbatim>\<open>ent.label_\<close>, in document order;
  \<^item> \<open>word_tokenize\<close> and \<open>stopwords_english\<close>: NLTK's tokenizer and
    \<^verbatim>\<open>stopwords.words('english')\<close>;
  \<^item> \<open>partial_ratio\<close>: \<^verbatim>\<open>fuzz.partial_ratio\<close>;
  \<^item> \<open>scorer\<close>: the similarity score by which \<^verbatim>\<open>process.extractOne\<close> ranks a
    choice against the query;
  \<^item> \<open>str_lower\<close>, \<open>str_isalpha\<close>: \<^verbatim>\<open>str.lower\<close> and \<^verbatim>\<open>str.isalpha\<close>;
  \<^item> \<open>str_num\<close>: the text that an f-string prints for a number.
\<close>

record 'n env =
  nlp :: "string \<Rightarrow> (string \<times> string) list"
  word_tokenize :: "string \<Rightarrow> string list"
  stopwords_english :: "string list"
  partial_ratio :: "string \<Rightarrow> string \<Rightarrow> int"
  scorer :: "string \<Rightarrow> string \<Rightarrow> int"
  str_lower :: "string \<Rightarrow> string"
  str_isalpha :: "string \<Rightarrow> bool"
  str_num :: "'n \<Rightarrow> string"

text \<open>\<^verbatim>\<open>' '.join(ws)\<close>.\<close>

fun join_space :: "string list \<Rightarrow> string" where
  "join_space [] = []"
| "join_space [w] = w"
| "join_space (w # v # ws) = w @ '' '' @ join_space (v # ws)"

text \<open>
  Modelled from the spec: \<^verbatim>\<open>process.extractOne\<close> of fuzzywuzzy, which is not among
  the sources. It is a best-match search: every choice is scored against the query and a
  choice with the highest score is returned with its score (the first one, as Python's
  \<^verbatim>\<open>max\<close> does); with no choice there is no best match and the value is \<^verbatim>\<open>None\<close>.
\<close>

fun best_choice :: "(string \<Rightarrow> int) \<Rightarrow> string list \<Rightarrow> string \<times> int \<Rightarrow> string \<times> int" where
  "best_choice sc [] best = best"
| "best_choice sc (c # cs) (b, s) =
     (if sc c > s then best_choice sc cs (c, sc c) else best_choice sc cs (b, s))"

fun extractOne :: "'n env \<Rightarrow> string \<Rightarrow> string list \<Rightarrow> (string \<times> int) option" where
  "extractOne E query [] = None"
| "extractOne E query (c # cs) = Some (best_choice (scorer E query) cs (c, scorer E query c))"

subsection \<open>The methods\<close>

text \<open>
  \<^verbatim>\<open>__init__\<close>, given the rows of the table (those read from \<^verbatim>\<open>data_path\<close>, or the
  sample table below when no path is given): it stores the rows and the list of their
  stop names.
\<close>

definition init :: "'n FacilityRecord list \<Rightarrow> 'n ToiletLocatorAgent" where
  "init rows = \<lparr>df = rows, stop_names = map stop_name rows\<rparr>"

text \<open>
  The loop of \<^verbatim>\<open>extract_location\<close> over \<^verbatim>\<open>self.stop_names\<close>; the last argument is
  the pair \<^verbatim>\<open>(best_match, highest_score)\<close>.
\<close>

fun fuzzy_loop ::
  "'n env \<Rightarrow> string \<Rightarrow> string list \<Rightarrow> string option \<times> int \<Rightarrow> string option \<times> int" where
  "fuzzy_loop E filtered_tokens [] (best_match, highest_score) = (best_match, highest_score)"
| "fuzzy_loop E filtered_tokens (sn # rest) (best_match, highest_score) =
     (let score = partial_ratio E filtered_tokens (str_lower E sn) in
      if score > highest_score \<and> score > 70
      then fuzzy_loop E filtered_tokens rest (Some sn, score)
      else fuzzy_loop E filtered_tokens rest (best_match, highest_score))"

text \<open>The list \<^verbatim>\<open>locations\<close> that the NER step of \<^verbatim>\<open>extract_location\<close> builds.\<close>

definition ner_locations :: "'n env \<Rightarrow> string \<Rightarrow> string list" where
  "ner_locations E query =
     map fst (filter (\<lambda>ent. snd ent \<in> set [''LOC'', ''GPE'']) (nlp E query))"

text \<open>The string \<^verbatim>\<open>filtered_tokens\<close> of the fallback.\<close>

definition filtered_tokens_of :: "'n env \<Rightarrow> string \<Rightarrow> string" where
  "filtered_tokens_of E query =
     (let tokens = word_tokenize E (str_lower E query);
          stop_words = set (stopwords_english E)
      in join_space (filter (\<lambda>w. str_isalpha E w \<and> w \<notin> stop_words) tokens))"

text \<open>
  \<^verbatim>\<open>extract_location\<close>. The test \<^verbatim>\<open>if best_match:\<close> is false for \<^verbatim>\<open>None\<close> and for
  the empty string.
\<close>

definition extract_location ::
  "'n env \<Rightarrow> 'n ToiletLocatorAgent \<Rightarrow> string \<Rightarrow> string option \<times> 'n ToiletLocatorAgent" where
  "extract_location E self query =
     (let locations = ner_locations E query;
          locations =
            (if locations = [] then
               (let filtered_tokens = filtered_tokens_of E query;
                    (best_match, highest_score) =
                       fuzzy_loop E filtered_tokens (stop_names self) (None, 0)
                in case best_match of
                     None \<Rightarrow> locations
                   | Some b \<Rightarrow> if b \<noteq> [] then [b] else locations)
             else locations)
      in (case locations of [] \<Rightarrow> None | l # _ \<Rightarrow> Some l, self))"

text \<open>
  \<^verbatim>\<open>find_nearest_toilet\<close>. Unpacking the \<^verbatim>\<open>None\<close> that \<^verbatim>\<open>extractOne\<close> returns for
  an empty list of names raises \<^verbatim>\<open>TypeError\<close>; \<^verbatim>\<open>.iloc[0]\<close> on an empty selection
  raises \<^verbatim>\<open>IndexError\<close>.
\<close>

definition find_nearest_toilet ::
  "'n env \<Rightarrow> 'n ToiletLocatorAgent \<Rightarrow> string \<Rightarrow>
     (exn + 'n toilet_info option) \<times> 'n ToiletLocatorAgent" where
  "find_nearest_toilet E self location =
     (let matched =
            (if location \<notin> set (stop_names self) then
               (case extractOne E location (stop_names self) of
                  None \<Rightarrow> Inl TypeError
                | Some (closest_stop, score) \<Rightarrow>
                    if score < 60 then Inr None else Inr (Some closest_stop))
             else Inr (Some location))
      in case matched of
           Inl e \<Rightarrow> (Inl e, self)
         | Inr None \<Rightarrow> (Inr None, self)
         | Inr (Some location) \<Rightarrow>
             (case filter (\<lambda>row. stop_name row = location) (df self) of
                [] \<Rightarrow> (Inl IndexError, self)
              | stop_info # _ \<Rightarrow>
                  (Inr (Some \<lparr>info_stop_name = stop_name stop_info,
                              info_stop_lat = stop_lat stop_info,
                              info_stop_lon = stop_lon stop_info,
                              info_washroom_id = nearest_washroom_id stop_info,
                              info_washroom_lat = washroom_latitude stop_info,
                              info_washroom_lon = washroom_longitude stop_info,
                              info_washroom_address = washroom_address stop_info,
                              info_distance = distance stop_info\<rparr>), self)))"

text \<open>\<^verbatim>\<open>get_google_maps_link\<close>.\<close>

definition get_google_maps_link ::
  "'n env \<Rightarrow> 'n ToiletLocatorAgent \<Rightarrow> 'n \<Rightarrow> 'n \<Rightarrow> 'n \<Rightarrow> 'n \<Rightarrow> string \<times> 'n ToiletLocatorAgent" where
  "get_google_maps_link E self from_lat from_lon to_lat to_lon =
     (''https://www.google.com/maps/dir/?api=1&origin='' @ str_num E from_lat @ '','' @
        str_num E from_lon @ ''&destination='' @ str_num E to_lat @ '','' @
        str_num E to_lon @ ''&travelmode=walking'', self)"

text \<open>The two failure dictionaries and the success dictionary of \<^verbatim>\<open>process_query\<close>.\<close>

definition apostrophe :: string where
  "apostrophe = [CHR 0x27]"

definition no_location_result :: "'n pydict" where
  "no_location_result =
     [(''success'', PBool False),
      (''message'', PStr (''I couldn'' @ apostrophe @
         ''t identify a location in your query. Please mention a specific bus stand or area.''))]"

definition no_matching_stop_result :: "string \<Rightarrow> 'n pydict" where
  "no_matching_stop_result location =
     [(''success'', PBool False),
      (''message'', PStr (''I couldn'' @ apostrophe @ ''t find a bus stand matching '' @
         apostrophe @ location @ apostrophe @ '' in our database.''))]"

definition success_result :: "'n env \<Rightarrow> 'n toilet_info \<Rightarrow> string \<Rightarrow> 'n pydict" where
  "success_result E toilet_info maps_link =
     [(''success'', PBool True),
      (''stop_name'', PStr (info_stop_name toilet_info)),
      (''stop_lat'', PNum (info_stop_lat toilet_info)),
      (''stop_lon'', PNum (info_stop_lon toilet_info)),
      (''washroom_id'', PStr (info_washroom_id toilet_info)),
      (''washroom_lat'', PNum (info_washroom_lat toilet_info)),
      (''washroom_lon'', PNum (info_washroom_lon toilet_info)),
      (''washroom_address'', PStr (info_washroom_address toilet_info)),
      (''distance'', PNum (info_distance toilet_info)),
      (''directions_link'', PStr maps_link),
      (''message'', PStr (''I found a public toilet near '' @ info_stop_name toilet_info @
         '' bus stand. It'' @ apostrophe @ ''s located at '' @
         info_washroom_address toilet_info @ '', approximately '' @
         str_num E (info_distance toilet_info) @
         '' meters away. You can use the Google Maps link below for directions.''))]"

text \<open>
  \<^verbatim>\<open>process_query\<close>. The test \<^verbatim>\<open>if not location:\<close> is true for \<^verbatim>\<open>None\<close> and for the
  empty string; \<^verbatim>\<open>if not toilet_info:\<close> is true only for \<^verbatim>\<open>None\<close>, since the
  dictionary has eight keys. An exception of \<^verbatim>\<open>find_nearest_toilet\<close> is not caught.
\<close>

definition process_query ::
  "'n env \<Rightarrow> 'n ToiletLocatorAgent \<Rightarrow> string \<Rightarrow> (exn + 'n pydict) \<times> 'n ToiletLocatorAgent" where
  "process_query E self query =
     (case extract_location E self query of
        (None, self) \<Rightarrow> (Inr no_location_result, self)
      | (Some location, self) \<Rightarrow>
          if location = [] then (Inr no_location_result, self)
          else
            (case find_nearest_toilet E self location of
               (Inl e, self) \<Rightarrow> (Inl e, self)
             | (Inr None, self) \<Rightarrow> (Inr (no_matching_stop_result location), self)
             | (Inr (Some toilet_info), self) \<Rightarrow>
                 (case get_google_maps_link E self
                         (info_stop_lat toilet_info) (info_stop_lon toilet_info)
                         (info_washroom_lat toilet_info) (info_washroom_lon toilet_info) of
                    (maps_link, self) \<Rightarrow>
                      (Inr (success_result E toilet_info maps_link), self))))"

subsection \<open>What a row contributes to an answer\<close>

text \<open>The dictionary that \<^verbatim>\<open>find_nearest_toilet\<close> builds from a row.\<close>

definition row_info :: "'n FacilityRecord \<Rightarrow> 'n toilet_info" where
  "row_info row =
     \<lparr>info_stop_name = stop_name row,
      info_stop_lat = stop_lat row,
      info_stop_lon = stop_lon row,
      info_washroom_id = nearest_washroom_id row,
      info_washroom_lat = washroom_latitude row,
      info_washroom_lon = washroom_longitude row,
      info_washroom_address = washroom_address row,
      info_distance = distance row\<rparr>"

text \<open>
  The row that \<^verbatim>\<open>find_nearest_toilet\<close> selects for a stop name, as the dictionary it
  returns: the first row of the table with that name.
\<close>

definition row_of_stop ::
  "'n ToiletLocatorAgent \<Rightarrow> string \<Rightarrow> exn + 'n toilet_info option" where
  "row_of_stop self location =
     (case List.find (\<lambda>row. stop_name row = location) (df self) of
        None \<Rightarrow> Inl IndexError
      | Some stop_info \<Rightarrow> Inr (Some (row_info stop_info)))"

text \<open>The link that \<^verbatim>\<open>process_query\<close> requests for a \<^verbatim>\<open>toilet_info\<close>.\<close>

definition link_of :: "'n env \<Rightarrow> 'n toilet_info \<Rightarrow> string" where
  "link_of E ti = ''https://www.google.com/maps/dir/?api=1&origin='' @ str_num E (info_stop_lat ti) @ '','' @
        str_num E (info_stop_lon ti) @ ''&destination='' @ str_num E (info_washroom_lat ti) @ '','' @
        str_num E (info_washroom_lon ti) @ ''&travelmode=walking''"

text \<open>The score of a stop name in the loop of \<^verbatim>\<open>extract_location\<close> for a query.\<close>

definition stop_score :: "'n env \<Rightarrow> string \<Rightarrow> string \<Rightarrow> int" where
  "stop_score E query sn = partial_ratio E (filtered_tokens_of E query) (str_lower E sn)"

subsection \<open>The sample table and a concrete environment\<close>

text \<open>
  The sample table that \<^verbatim>\<open>__init__\<close> builds when no \<^verbatim>\<open>data_path\<close> is given. A
  number is written as its decimal text, which is also what an f-string prints for it.
\<close>

definition mk_row ::
  "string \<Rightarrow> string \<Rightarrow> string \<Rightarrow> string \<Rightarrow> string \<Rightarrow> string \<Rightarrow> string \<Rightarrow> string \<Rightarrow> string \<Rightarrow>
     string FacilityRecord" where
  "mk_row sid slat slon sname wid wlat wlon dist addr =
     \<lparr>stop_id = sid, stop_lat = slat, stop_lon = slon, stop_name = sname,
      nearest_washroom_id = wid, washroom_latitude = wlat, washroom_longitude = wlon,
      distance = dist, washroom_address = addr\<rparr>"

definition sample_df :: "string FacilityRecord list" where
  "sample_df =
     [mk_row ''BS001'' ''28.6129'' ''77.2295'' ''Arjun Nagar'' ''PTU-13_001''
        ''28.6139'' ''77.2305'' ''150'' ''Near Arjun Nagar Market'',
      mk_row ''BS002'' ''28.6229'' ''77.2395'' ''Karol Bagh'' ''PTU-14_002''
        ''28.6239'' ''77.2405'' ''200'' ''Karol Bagh Metro Station'',
      mk_row ''BS003'' ''28.6329'' ''77.2495'' ''Connaught Place'' ''PTU-15_003''
        ''28.6339'' ''77.2505'' ''100'' ''Connaught Place Block A'',
      mk_row ''BS004'' ''28.6429'' ''77.2595'' ''Lajpat Nagar'' ''PTU-16_004''
        ''28.6439'' ''77.2605'' ''180'' ''Lajpat Nagar Central Market'',
      mk_row ''BS005'' ''28.6529'' ''77.2695'' ''Hauz Khas'' ''PTU-17_005''
        ''28.6539'' ''77.2705'' ''120'' ''Hauz Khas Village Entrance'']"

text \<open>
  A small environment on which the methods can be evaluated. It stands in for the
  libraries on ASCII text: the tokenizer splits at spaces, the stop words are an excerpt of
  NLTK's list, the recogniser tags the words of a short gazetteer as \<^verbatim>\<open>GPE\<close>, and both
  similarity scores are 100 when the shorter string occurs in the longer one and 0
  otherwise (with 0 for an empty string).
\<close>

definition ascii_lower :: "string \<Rightarrow> string" where
  "ascii_lower s =
     map (\<lambda>c. if 65 \<le> (of_char c :: nat) \<and> (of_char c :: nat) \<le> 90
              then char_of (of_char c + 32 :: nat) else c) s"

definition ascii_isalpha :: "string \<Rightarrow> bool" where
  "ascii_isalpha s =
     (s \<noteq> [] \<and>
      list_all (\<lambda>c. (65 \<le> (of_char c :: nat) \<and> (of_char c :: nat) \<le> 90) \<or>
                    (97 \<le> (of_char c :: nat) \<and> (of_char c :: nat) \<le> 122)) s)"

fun split_words :: "string \<Rightarrow> string \<Rightarrow> string list" where
  "split_words w [] = (if w = [] then [] else [w])"
| "split_words w (c # cs) =
     (if c = CHR '' '' then (if w = [] then split_words [] cs else w # split_words [] cs)
      else split_words (w @ [c]) cs)"

fun occurs_in :: "string \<Rightarrow> string \<Rightarrow> bool" where
  "occurs_in s [] = (s = [])"
| "occurs_in s (c # cs) = (take (length s) (c # cs) = s \<or> occurs_in s cs)"

definition demo_ratio :: "string \<Rightarrow> string \<Rightarrow> int" where
  "demo_ratio s1 s2 =
     (if s1 = [] \<or> s2 = [] then 0
      else if length s1 \<le> length s2 then (if occurs_in s1 s2 then 100 else 0)
      else (if occurs_in s2 s1 then 100 else 0))"

definition demo_env :: "string env" where
  "demo_env =
     \<lparr>nlp = (\<lambda>query. map (\<lambda>w. (w, ''GPE''))
                (filter (\<lambda>w. w \<in> set [''Mumbai'', ''Delhi'']) (split_words [] query))),
      word_tokenize = split_words [],
      stopwords_english = [''i'', ''me'', ''my'', ''a'', ''an'', ''the'', ''is'', ''at'',
                           ''in'', ''to'', ''where'', ''can''],
      partial_ratio = demo_ratio,
      scorer = (\<lambda>query choice. demo_ratio (ascii_lower query) (ascii_lower choice)),
      str_lower = ascii_lower,
      str_isalpha = ascii_isalpha,
      str_num = (\<lambda>n. n)\<rparr>"

text \<open>A table in which two rows carry the same stop name and different washrooms.\<close>

definition duplicate_first :: "string FacilityRecord" where
  "duplicate_first =
     mk_row ''BS002'' ''28.6229'' ''77.2395'' ''Karol Bagh'' ''PTU-14_002''
       ''28.6239'' ''77.2405'' ''200'' ''Karol Bagh Metro Station''"

definition duplicate_second :: "string FacilityRecord" where
  "duplicate_second =
     mk_row ''BS006'' ''28.6629'' ''77.2795'' ''Karol Bagh'' ''PTU-18_006''
       ''28.6639'' ''77.2805'' ''90'' ''Karol Bagh Terminal''"

definition duplicate_df :: "string FacilityRecord list" where
  "duplicate_df = [duplicate_first, duplicate_second]"

subsection \<open>Two runs and the answers of the libraries\<close>

text \<open>
  Two runs of \<^verbatim>\<open>process_query\<close> need not find the libraries in the same condition, so
  each run has an environment of its own. \<open>same_answers E1 E2 self query\<close> says that
  the two environments answer alike on the calls that a run for \<open>query\<close> on the agent
  \<open>self\<close> makes: the entities of the query, its lower-case form and its tokens, the
  stop words, the alphabetic test of each token, the lower-case form and the partial ratio
  of each stop name, the score of each stop name against each recognised location, and the
  printed form of the numbers of each row. On every other argument the two environments
  may differ.
\<close>

definition same_answers ::
  "'n env \<Rightarrow> 'n env \<Rightarrow> 'n ToiletLocatorAgent \<Rightarrow> string \<Rightarrow> bool" where
  "same_answers E1 E2 self query \<longleftrightarrow>
     nlp E1 query = nlp E2 query \<and>
     str_lower E1 query = str_lower E2 query \<and>
     word_tokenize E1 (str_lower E1 query) = word_tokenize E2 (str_lower E1 query) \<and>
     stopwords_english E1 = stopwords_english E2 \<and>
     (\<forall>w\<in>set (word_tokenize E1 (str_lower E1 query)). str_isalpha E1 w = str_isalpha E2 w) \<and>
     (\<forall>sn\<in>set (stop_names self).
        str_lower E1 sn = str_lower E2 sn \<and>
        partial_ratio E1 (filtered_tokens_of E1 query) (str_lower E1 sn) =
          partial_ratio E2 (filtered_tokens_of E1 query) (str_lower E1 sn)) \<and>
     (\<forall>location\<in>set (ner_locations E1 query). \<forall>sn\<in>set (stop_names self).
        scorer E1 location sn = scorer E2 location sn) \<and>
     (\<forall>row\<in>set (df self).
        str_num E1 (stop_lat row) = str_num E2 (stop_lat row) \<and>
        str_num E1 (stop_lon row) = str_num E2 (stop_lon row) \<and>
        str_num E1 (washroom_latitude row) = str_num E2 (washroom_latitude row) \<and>
        str_num E1 (washroom_longitude row) = str_num E2 (washroom_longitude row) \<and>
        str_num E1 (distance row) = str_num E2 (distance row))"

text \<open>
  A second concrete environment: it differs from \<open>demo_env\<close> in the score that ranks
  the choices of \<^verbatim>\<open>extractOne\<close> and in the lower-case form of texts that contain a
  digit.
\<close>

definition demo_env_other :: "string env" where
  "demo_env_other =
     demo_env\<lparr>scorer := (\<lambda>query choice. 0),
              str_lower := (\<lambda>s. if list_ex (\<lambda>c. 48 \<le> (of_char c :: nat) \<and> (of_char c :: nat) \<le> 57) s
                                 then s else ascii_lower s)\<rparr>"

section \<open>Auxiliary facts\<close>

subsection \<open>The agent is returned as it was passed\<close>

lemma extract_location_state [simp]: "snd (extract_location E self query) = self"
  by (simp add: extract_location_def Let_def)

lemma find_nearest_toilet_state [simp]: "snd (find_nearest_toilet E self location) = self"
  by (simp add: find_nearest_toilet_def Let_def split: option.splits sum.splits list.splits prod.splits)

lemma get_google_maps_link_state [simp]:
  "snd (get_google_maps_link E self a b c d) = self"
  by (simp add: get_google_maps_link_def)

lemma process_query_state [simp]: "snd (process_query E self query) = self"
proof -
  obtain l s where el: "extract_location E self query = (l, s)" by (cases "extract_location E self query")
  then have s: "s = self" using extract_location_state [of E self query] by simp
  show ?thesis
  proof (cases l)
    case None then show ?thesis using el s by (simp add: process_query_def)
  next
    case (Some loc)
    obtain r s' where fn: "find_nearest_toilet E self loc = (r, s')" by (cases "find_nearest_toilet E self loc")
    then have s': "s' = self" using find_nearest_toilet_state [of E self loc] by simp
    show ?thesis using el s Some fn s'
      by (simp add: process_query_def get_google_maps_link_def split: sum.splits option.splits)
  qed
qed

subsection \<open>The value of \<^verbatim>\<open>process_query\<close>\<close>

lemma process_query_value:
  "fst (process_query E self query) =
     (case fst (extract_location E self query) of
        None \<Rightarrow> Inr no_location_result
      | Some location \<Rightarrow>
          if location = [] then Inr no_location_result
          else (case fst (find_nearest_toilet E self location) of
                  Inl e \<Rightarrow> Inl e
                | Inr None \<Rightarrow> Inr (no_matching_stop_result location)
                | Inr (Some ti) \<Rightarrow> Inr (success_result E ti (link_of E ti))))"
proof -
  obtain l s where el: "extract_location E self query = (l, s)" by (cases "extract_location E self query")
  then have s: "s = self" using extract_location_state [of E self query] by simp
  show ?thesis
  proof (cases l)
    case None then show ?thesis using el s by (simp add: process_query_def)
  next
    case (Some loc)
    obtain r s' where fn: "find_nearest_toilet E self loc = (r, s')" by (cases "find_nearest_toilet E self loc")
    then have s': "s' = self" using find_nearest_toilet_state [of E self loc] by simp
    show ?thesis using el s Some fn s'
      by (simp add: process_query_def get_google_maps_link_def link_of_def split: sum.splits option.splits)
  qed
qed


subsection \<open>The first maximum of a list and the two search loops\<close>

lemma first_maximum_exists:
  fixes f :: "'a \<Rightarrow> int"
  shows "xs \<noteq> [] \<Longrightarrow>
    \<exists>pre b post. xs = pre @ b # post \<and> (\<forall>x\<in>set pre. f x < f b) \<and> (\<forall>x\<in>set post. f x \<le> f b)"
proof (induction xs)
  case Nil
  then show ?case by simp
next
  case (Cons a xs)
  show ?case
  proof (cases "xs = []")
    case True
    then have "a # xs = [] @ a # []" by simp
    then show ?thesis by fastforce
  next
    case False
    then obtain pre b post where d: "xs = pre @ b # post"
      and lt: "\<forall>x\<in>set pre. f x < f b" and le: "\<forall>x\<in>set post. f x \<le> f b"
      using Cons.IH by blast
    show ?thesis
    proof (cases "f a < f b")
      case True
      have "a # xs = (a # pre) @ b # post" using d by simp
      moreover have "\<forall>x\<in>set (a # pre). f x < f b" using True lt by simp
      ultimately show ?thesis using le by blast
    next
      case False
      have "a # xs = [] @ a # xs" by simp
      moreover have "\<forall>x\<in>set xs. f x \<le> f a" using False d lt le by fastforce
      ultimately show ?thesis by fastforce
    qed
  qed
qed

lemma first_maximum_unique:
  fixes f :: "'a \<Rightarrow> int"
  assumes "xs = pre @ b # post" "\<forall>x\<in>set pre. f x < f b" "\<forall>x\<in>set post. f x \<le> f b"
    and "xs = pre' @ b' # post'" "\<forall>x\<in>set pre'. f x < f b'" "\<forall>x\<in>set post'. f x \<le> f b'"
  shows "pre = pre' \<and> b = b' \<and> post = post'"
proof -
  have bb': "f b = f b'"
  proof -
    have "set xs = set pre \<union> {b} \<union> set post" using assms(1) by simp
    moreover have "b' \<in> set xs" using assms(4) by simp
    ultimately have "b' \<in> set pre \<union> {b} \<union> set post" by simp
    then have 1: "f b' \<le> f b" using assms(2,3) by fastforce
    have "set xs = set pre' \<union> {b'} \<union> set post'" using assms(4) by simp
    moreover have "b \<in> set xs" using assms(1) by simp
    ultimately have "b \<in> set pre' \<union> {b'} \<union> set post'" by simp
    then have "f b \<le> f b'" using assms(5,6) by fastforce
    then show ?thesis using 1 by simp
  qed
  have "pre = pre'"
  proof (rule ccontr)
    assume ne: "pre \<noteq> pre'"
    from assms(1,4) have eq: "pre @ b # post = pre' @ b' # post'" by simp
    then consider us where "pre = pre' @ us" "us @ b # post = b' # post'"
      | us where "pre @ us = pre'" "b # post = us @ b' # post'"
      by (auto simp: append_eq_append_conv2)
    then show False
    proof cases
      case 1
      then have "us \<noteq> []" using ne by auto
      then have "b' \<in> set pre" using 1 by (cases us) auto
      then show False using assms(2) bb' by fastforce
    next
      case 2
      then have "us \<noteq> []" using ne by auto
      then have "b \<in> set pre'" using 2 by (cases us) auto
      then show False using assms(5) bb' by fastforce
    qed
  qed
  then show ?thesis using assms(1,4) by simp
qed

lemma fuzzy_loop_keeps:
  "\<forall>sn\<in>set names. partial_ratio E ft (str_lower E sn) \<le> max hs 70 \<Longrightarrow>
   fuzzy_loop E ft names (bm, hs) = (bm, hs)"
  by (induction names) (auto simp: Let_def)

lemma fuzzy_loop_first_maximum:
  "\<forall>x\<in>set pre. partial_ratio E ft (str_lower E x) < partial_ratio E ft (str_lower E b) \<Longrightarrow>
   \<forall>x\<in>set post. partial_ratio E ft (str_lower E x) \<le> partial_ratio E ft (str_lower E b) \<Longrightarrow>
   max hs 70 < partial_ratio E ft (str_lower E b) \<Longrightarrow>
   fuzzy_loop E ft (pre @ b # post) (bm, hs) = (Some b, partial_ratio E ft (str_lower E b))"
proof (induction pre arbitrary: bm hs)
  case Nil
  have "fuzzy_loop E ft post (Some b, partial_ratio E ft (str_lower E b))
        = (Some b, partial_ratio E ft (str_lower E b))"
    using Nil.prems(2) by (intro fuzzy_loop_keeps) auto
  then show ?case using Nil.prems(3) by simp
next
  case (Cons a pre)
  show ?case
  proof (cases "partial_ratio E ft (str_lower E a) > hs \<and> partial_ratio E ft (str_lower E a) > 70")
    case True
    have "fuzzy_loop E ft (pre @ b # post) (Some a, partial_ratio E ft (str_lower E a))
          = (Some b, partial_ratio E ft (str_lower E b))"
      using Cons.prems True by (intro Cons.IH) auto
    then show ?thesis using True by simp
  next
    case False
    have "fuzzy_loop E ft (pre @ b # post) (bm, hs) = (Some b, partial_ratio E ft (str_lower E b))"
      using Cons.prems by (intro Cons.IH) auto
    then show ?thesis using False by auto
  qed
qed

lemma best_choice_keeps:
  "\<forall>c\<in>set cs. sc c \<le> s \<Longrightarrow> best_choice sc cs (b, s) = (b, s)"
  by (induction cs) auto

lemma best_choice_first_maximum:
  "\<forall>x\<in>set pre. sc x < sc b \<Longrightarrow> \<forall>x\<in>set post. sc x \<le> sc b \<Longrightarrow> s < sc b \<Longrightarrow>
   best_choice sc (pre @ b # post) (b0, s) = (b, sc b)"
proof (induction pre arbitrary: b0 s)
  case Nil
  then show ?case by (simp add: best_choice_keeps)
next
  case (Cons a pre)
  then show ?case by auto
qed

lemma extractOne_first_maximum:
  assumes "\<forall>x\<in>set pre. scorer E query x < scorer E query b"
      and "\<forall>x\<in>set post. scorer E query x \<le> scorer E query b"
  shows "extractOne E query (pre @ b # post) = Some (b, scorer E query b)"
proof (cases pre)
  case Nil
  then show ?thesis using assms by (simp add: best_choice_keeps)
next
  case (Cons a pre')
  then show ?thesis using assms by (simp add: best_choice_first_maximum)
qed

lemma first_row_case:
  "(case filter P xs of [] \<Rightarrow> a | x # _ \<Rightarrow> f x) = (case List.find P xs of None \<Rightarrow> a | Some x \<Rightarrow> f x)"
  by (induction xs) auto

subsection \<open>The value of \<^verbatim>\<open>find_nearest_toilet\<close>\<close>

lemma find_nearest_toilet_value:
  "fst (find_nearest_toilet E self location) =
     (if location \<in> set (stop_names self) then row_of_stop self location
      else (case extractOne E location (stop_names self) of
              None \<Rightarrow> Inl TypeError
            | Some (closest_stop, score) \<Rightarrow>
                if score < 60 then Inr None else row_of_stop self closest_stop))"
  by (simp add: find_nearest_toilet_def row_of_stop_def row_info_def first_row_case
      split: option.splits prod.splits)

lemma find_nearest_toilet_row:
  assumes "fst (find_nearest_toilet E self location) = Inr (Some ti)"
  shows "\<exists>row\<in>set (df self). ti = row_info row"
proof -
  have "\<exists>n. row_of_stop self n = Inr (Some ti)"
    using assms unfolding find_nearest_toilet_value
    by (auto split: if_splits option.splits prod.splits)
  then obtain n row where "List.find (\<lambda>row. stop_name row = n) (df self) = Some row" "ti = row_info row"
    by (auto simp: row_of_stop_def split: option.splits)
  then show ?thesis by (auto simp: find_Some_iff)
qed

subsection \<open>The result dictionaries and the value of \<^verbatim>\<open>extract_location\<close>\<close>

lemma no_location_neq_no_matching [simp]:
  "no_location_result \<noteq> no_matching_stop_result location"
  "no_matching_stop_result location \<noteq> no_location_result"
  by (simp_all add: no_location_result_def no_matching_stop_result_def apostrophe_def)

lemma success_neq_failure [simp]:
  "success_result E ti link \<noteq> no_location_result"
  "success_result E ti link \<noteq> no_matching_stop_result location"
  by (simp_all add: success_result_def no_location_result_def no_matching_stop_result_def)

lemma no_matching_stop_result_inj [simp]:
  "no_matching_stop_result l = no_matching_stop_result l' \<longleftrightarrow> l = l'"
  by (simp add: no_matching_stop_result_def)

lemma failure_success_flag [simp]:
  "map_of no_location_result ''success'' = Some (PBool False)"
  "map_of (no_matching_stop_result location) ''success'' = Some (PBool False)"
  "map_of (success_result E ti link) ''success'' = Some (PBool True)"
  by (simp_all add: success_result_def no_location_result_def no_matching_stop_result_def)

lemma fuzzy_loop_member:
  "fst (fuzzy_loop E ft names (bm, hs)) = Some b \<Longrightarrow> bm = Some b \<or> b \<in> set names"
  by (induction names arbitrary: bm hs) (auto simp: Let_def split: if_splits)

lemma extract_location_ner:
  "ner_locations E query = l # ls \<Longrightarrow> fst (extract_location E self query) = Some l"
  by (simp add: extract_location_def)

lemma extract_location_fallback:
  assumes "ner_locations E query = []"
  shows "fst (extract_location E self query) =
           (case fst (fuzzy_loop E (filtered_tokens_of E query) (stop_names self) (None, 0)) of
              None \<Rightarrow> None
            | Some b \<Rightarrow> if b \<noteq> [] then Some b else None)"
  using assms by (simp add: extract_location_def split: prod.splits option.splits)

lemma extract_location_nonempty:
  assumes "[] \<notin> set (ner_locations E query)"
  shows "fst (extract_location E self query) \<noteq> Some []"
proof (cases "ner_locations E query")
  case Nil
  then show ?thesis by (simp add: extract_location_fallback split: option.splits)
next
  case (Cons l ls)
  then show ?thesis using assms by (auto simp: extract_location_ner)
qed

subsection \<open>The rows of known stops\<close>

lemma first_maximum_is_Max:
  fixes f :: "'a \<Rightarrow> int"
  assumes "xs = pre @ b # post" "\<forall>x\<in>set pre. f x < f b" "\<forall>x\<in>set post. f x \<le> f b"
  shows "Max (f ` set xs) = f b"
proof (rule Max_eqI)
  show "finite (f ` set xs)" by simp
  show "f b \<in> f ` set xs" using assms(1) by simp
  fix y assume "y \<in> f ` set xs"
  then obtain x where "x \<in> set xs" "y = f x" by blast
  then show "y \<le> f b" using assms by fastforce
qed

lemma row_of_known_stop:
  assumes "n \<in> set (stop_names (init rows))"
  shows "\<exists>row\<in>set rows. stop_name row = n \<and> row_of_stop (init rows) n = Inr (Some (row_info row))"
proof -
  from assms have "\<exists>row. row \<in> set rows \<and> stop_name row = n" by (auto simp: init_def)
  then obtain row where f: "List.find (\<lambda>row. stop_name row = n) rows = Some row"
    by (cases "List.find (\<lambda>row. stop_name row = n) rows") (auto simp: find_None_iff)
  then have "row \<in> set rows" "stop_name row = n" by (auto simp: find_Some_iff)
  moreover have "row_of_stop (init rows) n = Inr (Some (row_info row))"
    using f by (simp add: row_of_stop_def init_def)
  ultimately show ?thesis by blast
qed

lemma find_nearest_toilet_empty_table:
  "fst (find_nearest_toilet E (init []) location) = Inl TypeError"
  by (simp add: find_nearest_toilet_value init_def)

lemma find_nearest_toilet_first_row:
  assumes "fst (find_nearest_toilet E self location) = Inr (Some ti)"
  shows "\<exists>n row. List.find (\<lambda>row. stop_name row = n) (df self) = Some row \<and> ti = row_info row"
proof -
  have "\<exists>n. row_of_stop self n = Inr (Some ti)"
    using assms unfolding find_nearest_toilet_value
    by (auto split: if_splits option.splits prod.splits)
  then show ?thesis by (auto simp: row_of_stop_def split: option.splits)
qed

lemma duplicate_second_never_returned:
  fixes E :: "string env"
  assumes "fst (process_query E (init duplicate_df) query) = Inr res"
  shows "map_of res ''washroom_id'' \<noteq> Some (PStr (nearest_washroom_id duplicate_second))"
proof -
  from assms consider "res = no_location_result"
    | location where "res = no_matching_stop_result location"
    | location ti where "fst (find_nearest_toilet E (init duplicate_df) location) = Inr (Some ti)"
        "res = success_result E ti (link_of E ti)"
    by (auto simp: process_query_value split: option.splits if_splits sum.splits)
  then show ?thesis
  proof cases
    case 1
    then show ?thesis by (simp add: no_location_result_def)
  next
    case 2
    then show ?thesis by (simp add: no_matching_stop_result_def)
  next
    case 3
    from find_nearest_toilet_first_row [OF 3(1)] obtain n row
      where "List.find (\<lambda>row. stop_name row = n) (df (init duplicate_df)) = Some row" "ti = row_info row"
      by blast
    then have "ti = row_info duplicate_first"
      by (auto simp: init_def duplicate_df_def duplicate_first_def duplicate_second_def mk_row_def
          split: if_splits)
    then show ?thesis using 3(2)
      by (simp add: success_result_def row_info_def duplicate_first_def duplicate_second_def mk_row_def)
  qed
qed

subsection \<open>Environments that answer alike\<close>

lemma fuzzy_loop_same_answers:
  "\<forall>sn\<in>set names. partial_ratio E1 ft (str_lower E1 sn) = partial_ratio E2 ft (str_lower E2 sn) \<Longrightarrow>
   fuzzy_loop E1 ft names acc = fuzzy_loop E2 ft names acc"
proof (induction names arbitrary: acc)
  case Nil
  show ?case by (cases acc) simp
next
  case (Cons sn names)
  then show ?case by (cases acc) (simp add: Let_def)
qed

lemma best_choice_same_answers:
  "\<forall>c\<in>set cs. sc1 c = sc2 c \<Longrightarrow> best_choice sc1 cs best = best_choice sc2 cs best"
proof (induction cs arbitrary: best)
  case Nil
  show ?case by simp
next
  case (Cons c cs)
  then show ?case by (cases best) simp
qed

lemma extractOne_same_answers:
  "\<forall>c\<in>set cs. scorer E1 query c = scorer E2 query c \<Longrightarrow>
   extractOne E1 query cs = extractOne E2 query cs"
  by (cases cs) (simp_all add: best_choice_same_answers)

lemma same_answers_ner:
  "same_answers E1 E2 self query \<Longrightarrow> ner_locations E2 query = ner_locations E1 query"
  unfolding same_answers_def by (auto simp: ner_locations_def)

lemma same_answers_filtered:
  assumes "same_answers E1 E2 self query"
  shows "filtered_tokens_of E2 query = filtered_tokens_of E1 query"
proof -
  have l: "str_lower E2 query = str_lower E1 query"
    and t: "word_tokenize E2 (str_lower E1 query) = word_tokenize E1 (str_lower E1 query)"
    and sw: "stopwords_english E2 = stopwords_english E1"
    and al: "\<forall>w\<in>set (word_tokenize E1 (str_lower E1 query)). str_isalpha E2 w = str_isalpha E1 w"
    using assms unfolding same_answers_def by auto
  have "filter (\<lambda>w. str_isalpha E2 w \<and> w \<notin> set (stopwords_english E1))
          (word_tokenize E1 (str_lower E1 query)) =
        filter (\<lambda>w. str_isalpha E1 w \<and> w \<notin> set (stopwords_english E1))
          (word_tokenize E1 (str_lower E1 query))"
    using al by (intro filter_cong) auto
  then show ?thesis by (simp add: filtered_tokens_of_def l t sw)
qed

lemma same_answers_extract_location:
  assumes "same_answers E1 E2 self query"
  shows "fst (extract_location E2 self query) = fst (extract_location E1 self query)"
proof -
  have "\<forall>sn\<in>set (stop_names self).
          partial_ratio E2 (filtered_tokens_of E1 query) (str_lower E2 sn) =
          partial_ratio E1 (filtered_tokens_of E1 query) (str_lower E1 sn)"
    using assms unfolding same_answers_def by auto
  then have "fuzzy_loop E2 (filtered_tokens_of E1 query) (stop_names self) (None, 0) =
        fuzzy_loop E1 (filtered_tokens_of E1 query) (stop_names self) (None, 0)"
    by (rule fuzzy_loop_same_answers)
  then have loop: "fuzzy_loop E2 (filtered_tokens_of E2 query) (stop_names self) (None, 0) =
        fuzzy_loop E1 (filtered_tokens_of E1 query) (stop_names self) (None, 0)"
    by (simp add: same_answers_filtered [OF assms])
  show ?thesis
  proof (cases "ner_locations E1 query")
    case Nil
    then have "ner_locations E2 query = []" by (simp add: same_answers_ner [OF assms])
    then show ?thesis using Nil by (simp add: extract_location_fallback loop)
  next
    case (Cons l ls)
    then have "ner_locations E2 query = l # ls" by (simp add: same_answers_ner [OF assms])
    then show ?thesis using Cons by (simp add: extract_location_ner)
  qed
qed

lemma same_answers_find_nearest_toilet:
  assumes "same_answers E1 E2 self query"
      and "fst (extract_location E1 self query) = Some location"
  shows "fst (find_nearest_toilet E2 self location) = fst (find_nearest_toilet E1 self location)"
proof (cases "location \<in> set (stop_names self)")
  case True
  then show ?thesis by (simp add: find_nearest_toilet_value)
next
  case False
  have "location \<in> set (ner_locations E1 query)"
  proof (cases "ner_locations E1 query")
    case Nil
    have False
      using assms(2) Nil False
      by (auto simp: extract_location_fallback dest!: fuzzy_loop_member split: option.splits if_splits)
    then show ?thesis ..
  next
    case (Cons l ls)
    then show ?thesis using assms(2) by (simp add: extract_location_ner)
  qed
  then have "\<forall>sn\<in>set (stop_names self). scorer E1 location sn = scorer E2 location sn"
    using assms(1) unfolding same_answers_def by auto
  from extractOne_same_answers [OF this] show ?thesis
    by (simp add: find_nearest_toilet_value)
qed

lemma same_answers_success_result:
  assumes "same_answers E1 E2 self query" and "row \<in> set (df self)"
  shows "success_result E2 (row_info row) (link_of E2 (row_info row)) =
         success_result E1 (row_info row) (link_of E1 (row_info row))"
  using assms unfolding same_answers_def
  by (auto simp: success_result_def link_of_def row_info_def)

lemma different_answers_different_results:
  "fst (process_query demo_env (init sample_df) ''toilet in Delhi near karol bagh'') \<noteq>
   fst (process_query (demo_env\<lparr>nlp := (\<lambda>query. [])\<rparr>) (init sample_df) ''toilet in Delhi near karol bagh'')"
  by code_simp

section \<open>Properties of the agent\<close>

text \<open>
  C9. The table is stored once, by \<^verbatim>\<open>__init__\<close>: the rows as \<^verbatim>\<open>df\<close> and their stop
  names as \<^verbatim>\<open>stop_names\<close>. No method changes it: after \<^verbatim>\<open>extract_location\<close>,
  \<^verbatim>\<open>find_nearest_toilet\<close>, \<^verbatim>\<open>get_google_maps_link\<close> and \<^verbatim>\<open>process_query\<close> the
  agent is the one that was passed, for every input.
\<close>

theorem agent_never_mutated:
  "df (init rows) = rows \<and> stop_names (init rows) = map stop_name rows \<and>
   snd (extract_location E self query) = self \<and>
   snd (find_nearest_toilet E self location) = self \<and>
   snd (get_google_maps_link E self from_lat from_lon to_lat to_lon) = self \<and>
   snd (process_query E self query) = self"
  by (simp add: init_def)

text \<open>
  C6. \<^verbatim>\<open>process_query\<close> is deterministic. Take two runs of the same query: the first
  on an agent, the second on the agent that the first run leaves behind, each with the
  libraries as that run finds them. If the libraries give the same answers in both runs on
  the calls that the run makes, the second run returns the same result dictionary (or the
  same exception) and the same agent as the first. The result is a function of the query,
  the table and those answers: the method adds no variation of its own.
\<close>

theorem process_query_deterministic:
  assumes "same_answers E1 E2 self query"
  shows "process_query E2 (snd (process_query E1 self query)) query = process_query E1 self query"
proof -
  have "fst (process_query E2 self query) = fst (process_query E1 self query)"
  proof (cases "fst (extract_location E1 self query)")
    case None
    then show ?thesis
      by (simp add: process_query_value same_answers_extract_location [OF assms])
  next
    case (Some location)
    note fnt = same_answers_find_nearest_toilet [OF assms Some]
    show ?thesis
    proof (cases "fst (find_nearest_toilet E1 self location)")
      case (Inl e)
      then show ?thesis using Some fnt
        by (simp add: process_query_value same_answers_extract_location [OF assms])
    next
      case (Inr r)
      show ?thesis
      proof (cases r)
        case None
        then show ?thesis using Some fnt Inr
          by (simp add: process_query_value same_answers_extract_location [OF assms])
      next
        case (Some ti)
        with Inr find_nearest_toilet_row obtain row where "row \<in> set (df self)" "ti = row_info row"
          by blast
        then show ?thesis
          using \<open>fst (extract_location E1 self query) = Some location\<close> fnt Inr Some
            same_answers_success_result [OF assms]
          by (simp add: process_query_value same_answers_extract_location [OF assms])
      qed
    qed
  qed
  then show ?thesis by (simp add: prod_eq_iff)
qed

theorem process_query_deterministic_witness:
  "same_answers demo_env demo_env_other (init sample_df) ''I need a washroom near Connaught Place'' \<and>
   scorer demo_env ''Karol Bagh'' ''Karol Bagh'' \<noteq> scorer demo_env_other ''Karol Bagh'' ''Karol Bagh'' \<and>
   process_query demo_env_other
     (snd (process_query demo_env (init sample_df) ''I need a washroom near Connaught Place''))
     ''I need a washroom near Connaught Place'' =
   process_query demo_env (init sample_df) ''I need a washroom near Connaught Place''"
proof -
  have h: "same_answers demo_env demo_env_other (init sample_df) ''I need a washroom near Connaught Place''"
    by code_simp
  have d: "scorer demo_env ''Karol Bagh'' ''Karol Bagh'' \<noteq> scorer demo_env_other ''Karol Bagh'' ''Karol Bagh''"
    by code_simp
  show ?thesis
    using process_query_deterministic [OF h] h d by simp
qed

text \<open>
  C8. A query in which the recogniser finds no location entity and for which no stop name
  scores above 70 in the fuzzy fallback is answered with the failure dictionary for
  "no location identified".
\<close>

theorem only_stop_words_no_location:
  assumes "ner_locations E query = []"
      and "\<forall>sn\<in>set (stop_names self). stop_score E query sn \<le> 70"
  shows "fst (process_query E self query) = Inr no_location_result"
proof -
  have "fuzzy_loop E (filtered_tokens_of E query) (stop_names self) (None, 0) = (None, 0)"
    using assms(2) by (intro fuzzy_loop_keeps) (simp add: stop_score_def)
  then have "fst (extract_location E self query) = None"
    using assms(1) by (simp add: extract_location_def)
  then show ?thesis by (simp add: process_query_value)
qed

theorem only_stop_words_no_location_witness:
  "ner_locations demo_env ''please help me'' = [] \<and>
   list_all (\<lambda>sn. stop_score demo_env ''please help me'' sn \<le> 70) (stop_names (init sample_df)) \<and>
   fst (process_query demo_env (init sample_df) ''please help me'') = Inr no_location_result"
proof -
  have h1: "ner_locations demo_env ''please help me'' = []" by code_simp
  have h2: "list_all (\<lambda>sn. stop_score demo_env ''please help me'' sn \<le> 70) (stop_names (init sample_df))"
    by code_simp
  from h2 have h2': "\<forall>sn\<in>set (stop_names (init sample_df)). stop_score demo_env ''please help me'' sn \<le> 70"
    by (simp add: list_all_iff)
  show ?thesis using only_stop_words_no_location [OF h1 h2'] h1 h2 by simp
qed

text \<open>
  C5. Provided the texts of the recognised location entities are not empty (spaCy's
  entities are non-empty spans), \<^verbatim>\<open>process_query\<close> returns a dictionary with
  \<^verbatim>\<open>success\<close> false in exactly two cases: the "no location identified" dictionary
  exactly when \<^verbatim>\<open>extract_location\<close> returned \<^verbatim>\<open>None\<close>, and the "no matching stop"
  dictionary, with the extracted name in its message, exactly when
  \<^verbatim>\<open>find_nearest_toilet\<close> returned \<^verbatim>\<open>None\<close> for that name. Every dictionary with
  \<^verbatim>\<open>success\<close> false is one of these two, and in both cases a dictionary is returned:
  no exception reaches the caller.
\<close>

theorem process_query_failures:
  assumes "[] \<notin> set (ner_locations E query)"
  shows "(fst (process_query E self query) = Inr no_location_result \<longleftrightarrow>
            fst (extract_location E self query) = None) \<and>
         (\<forall>location. fst (process_query E self query) = Inr (no_matching_stop_result location) \<longleftrightarrow>
            fst (extract_location E self query) = Some location \<and>
            fst (find_nearest_toilet E self location) = Inr None) \<and>
         (\<forall>res. fst (process_query E self query) = Inr res \<and>
                map_of res ''success'' = Some (PBool False) \<longrightarrow>
            res = no_location_result \<or> (\<exists>location. res = no_matching_stop_result location)) \<and>
         (fst (extract_location E self query) = None \<or>
          (\<exists>location. fst (extract_location E self query) = Some location \<and>
             fst (find_nearest_toilet E self location) = Inr None) \<longrightarrow>
            (\<exists>res. fst (process_query E self query) = Inr res))"
proof -
  note ne = extract_location_nonempty [OF assms, of self]
  show ?thesis
  proof (cases "fst (extract_location E self query)")
    case None
    then show ?thesis by (simp add: process_query_value)
  next
    case (Some loc)
    then have loc: "loc \<noteq> []" using ne by auto
    show ?thesis
    proof (cases "fst (find_nearest_toilet E self loc)")
      case (Inl e)
      then show ?thesis using Some loc by (simp add: process_query_value)
    next
      case (Inr r)
      then show ?thesis using Some loc by (cases r) (auto simp: process_query_value)
    qed
  qed
qed

theorem process_query_failures_witness:
  "[] \<notin> set (ner_locations demo_env ''where is a toilet in Mumbai'') \<and>
   fst (extract_location demo_env (init sample_df) ''where is a toilet in Mumbai'') = Some ''Mumbai'' \<and>
   fst (find_nearest_toilet demo_env (init sample_df) ''Mumbai'') = Inr None \<and>
   fst (process_query demo_env (init sample_df) ''where is a toilet in Mumbai'') =
     Inr (no_matching_stop_result ''Mumbai'')"
proof -
  have h: "[] \<notin> set (ner_locations demo_env ''where is a toilet in Mumbai'')" by code_simp
  have e: "fst (extract_location demo_env (init sample_df) ''where is a toilet in Mumbai'') = Some ''Mumbai''"
    by code_simp
  have f: "fst (find_nearest_toilet demo_env (init sample_df) ''Mumbai'') = Inr None" by code_simp
  show ?thesis
    using process_query_failures [OF h, of "init sample_df"] h e f by blast
qed

text \<open>
  C2. Whenever \<^verbatim>\<open>process_query\<close> returns a dictionary with \<^verbatim>\<open>success\<close> true, its
  stop and washroom coordinates are those of one row of the table, the matched one, and
  \<^verbatim>\<open>directions_link\<close> is exactly the Google Maps URL with the stop's latitude and
  longitude as origin, the washroom's latitude and longitude as destination, in that
  order, and \<^verbatim>\<open>travelmode=walking\<close>.
\<close>

theorem directions_link_format:
  assumes "fst (process_query E self query) = Inr res"
      and "map_of res ''success'' = Some (PBool True)"
  shows "\<exists>row\<in>set (df self).
           map_of res ''stop_name'' = Some (PStr (stop_name row)) \<and>
           map_of res ''stop_lat'' = Some (PNum (stop_lat row)) \<and>
           map_of res ''stop_lon'' = Some (PNum (stop_lon row)) \<and>
           map_of res ''washroom_lat'' = Some (PNum (washroom_latitude row)) \<and>
           map_of res ''washroom_lon'' = Some (PNum (washroom_longitude row)) \<and>
           map_of res ''directions_link'' =
             Some (PStr (''https://www.google.com/maps/dir/?api=1&origin='' @
                         str_num E (stop_lat row) @ '','' @ str_num E (stop_lon row) @
                         ''&destination='' @ str_num E (washroom_latitude row) @ '','' @
                         str_num E (washroom_longitude row) @ ''&travelmode=walking''))"
proof -
  from assms obtain location ti
    where ti: "fst (find_nearest_toilet E self location) = Inr (Some ti)"
      and res: "res = success_result E ti (link_of E ti)"
    by (auto simp: process_query_value split: option.splits if_splits sum.splits)
  from find_nearest_toilet_row [OF ti] obtain row
    where row: "row \<in> set (df self)" "ti = row_info row" by blast
  show ?thesis
    using row res by (intro bexI [of _ row]) (simp_all add: success_result_def link_of_def row_info_def)
qed

theorem directions_link_format_witness:
  "fst (process_query demo_env (init sample_df) ''I need a washroom near Connaught Place'') =
     Inr (success_result demo_env (row_info (sample_df ! 2)) (link_of demo_env (row_info (sample_df ! 2)))) \<and>
   map_of (success_result demo_env (row_info (sample_df ! 2)) (link_of demo_env (row_info (sample_df ! 2))))
     ''success'' = Some (PBool True) \<and>
   (\<exists>row\<in>set (df (init sample_df)).
      map_of (success_result demo_env (row_info (sample_df ! 2)) (link_of demo_env (row_info (sample_df ! 2))))
        ''directions_link'' =
        Some (PStr (''https://www.google.com/maps/dir/?api=1&origin='' @
                    str_num demo_env (stop_lat row) @ '','' @ str_num demo_env (stop_lon row) @
                    ''&destination='' @ str_num demo_env (washroom_latitude row) @ '','' @
                    str_num demo_env (washroom_longitude row) @ ''&travelmode=walking'')))"
proof -
  have h1: "fst (process_query demo_env (init sample_df) ''I need a washroom near Connaught Place'') =
     Inr (success_result demo_env (row_info (sample_df ! 2)) (link_of demo_env (row_info (sample_df ! 2))))"
    by code_simp
  have h2: "map_of (success_result demo_env (row_info (sample_df ! 2)) (link_of demo_env (row_info (sample_df ! 2))))
     ''success'' = Some (PBool True)" by simp
  show ?thesis
    using directions_link_format [OF h1 h2] h1 h2 by blast
qed

text \<open>
  C1, as stated: querying with the exact stop name of any row of the table returns a
  success dictionary with the values of that row. This fails for a row whose stop name
  already occurs earlier in the table: \<^verbatim>\<open>find_nearest_toilet\<close> takes \<^verbatim>\<open>.iloc[0]\<close> of
  the rows with the name, so the query with the name of the second "Karol Bagh" row
  returns the washroom of the first one.
\<close>

theorem duplicate_stop_name_counterexample:
  "List.member duplicate_df duplicate_second \<and>
   fst (process_query demo_env (init duplicate_df) (stop_name duplicate_second)) =
     Inr (success_result demo_env (row_info duplicate_first)
            (link_of demo_env (row_info duplicate_first))) \<and>
   map_of (success_result demo_env (row_info duplicate_first)
            (link_of demo_env (row_info duplicate_first))) ''washroom_id''
     \<noteq> Some (PStr (nearest_washroom_id duplicate_second)) \<and>
   map_of (success_result demo_env (row_info duplicate_first)
            (link_of demo_env (row_info duplicate_first))) ''washroom_address''
     \<noteq> Some (PStr (washroom_address duplicate_second))"
  by code_simp

text \<open>
  C1, amended: for a row that is the first row of the table with its stop name, whose
  name is not empty and is returned unchanged by \<^verbatim>\<open>extract_location\<close>, querying with
  the exact stop name returns a success dictionary whose stop name, coordinates, washroom
  id, address and distance are the values of that row. (\<open>extract_location_ner\<close> and
  \<open>fuzzy_loop_first_maximum\<close> say when the name is returned unchanged: when it is the
  first location entity that the recogniser finds, or when the recogniser finds none and
  the name is the first stop name with the highest score, above 70.)
\<close>

theorem exact_stop_name_query:
  assumes "List.find (\<lambda>r. stop_name r = stop_name row) rows = Some row"
      and "fst (extract_location E (init rows) (stop_name row)) = Some (stop_name row)"
      and "stop_name row \<noteq> []"
  shows "\<exists>res. fst (process_query E (init rows) (stop_name row)) = Inr res \<and>
           map_of res ''success'' = Some (PBool True) \<and>
           map_of res ''stop_name'' = Some (PStr (stop_name row)) \<and>
           map_of res ''stop_lat'' = Some (PNum (stop_lat row)) \<and>
           map_of res ''stop_lon'' = Some (PNum (stop_lon row)) \<and>
           map_of res ''washroom_id'' = Some (PStr (nearest_washroom_id row)) \<and>
           map_of res ''washroom_lat'' = Some (PNum (washroom_latitude row)) \<and>
           map_of res ''washroom_lon'' = Some (PNum (washroom_longitude row)) \<and>
           map_of res ''washroom_address'' = Some (PStr (washroom_address row)) \<and>
           map_of res ''distance'' = Some (PNum (distance row))"
proof -
  have "row \<in> set rows" using assms(1) by (auto simp: find_Some_iff)
  then have "stop_name row \<in> set (stop_names (init rows))" by (simp add: init_def)
  then have "fst (find_nearest_toilet E (init rows) (stop_name row)) = row_of_stop (init rows) (stop_name row)"
    by (simp add: find_nearest_toilet_value)
  also have "\<dots> = Inr (Some (row_info row))"
    using assms(1) by (simp add: row_of_stop_def init_def)
  finally have "fst (process_query E (init rows) (stop_name row)) =
      Inr (success_result E (row_info row) (link_of E (row_info row)))"
    using assms(2,3) by (simp add: process_query_value)
  then show ?thesis
    by (simp add: success_result_def row_info_def)
qed

theorem exact_stop_name_query_witness:
  "List.find (\<lambda>r. stop_name r = stop_name (sample_df ! 2)) sample_df = Some (sample_df ! 2) \<and>
   fst (extract_location demo_env (init sample_df) (stop_name (sample_df ! 2))) =
     Some (stop_name (sample_df ! 2)) \<and>
   stop_name (sample_df ! 2) \<noteq> [] \<and>
   (\<exists>res. fst (process_query demo_env (init sample_df) (stop_name (sample_df ! 2))) = Inr res \<and>
      map_of res ''success'' = Some (PBool True) \<and>
      map_of res ''washroom_address'' = Some (PStr (washroom_address (sample_df ! 2))) \<and>
      map_of res ''distance'' = Some (PNum (distance (sample_df ! 2))))"
proof -
  have h1: "List.find (\<lambda>r. stop_name r = stop_name (sample_df ! 2)) sample_df = Some (sample_df ! 2)"
    by code_simp
  have h2: "fst (extract_location demo_env (init sample_df) (stop_name (sample_df ! 2))) =
     Some (stop_name (sample_df ! 2))" by code_simp
  have h3: "stop_name (sample_df ! 2) \<noteq> []" by code_simp
  show ?thesis
    using exact_stop_name_query [OF h1 h2 h3] h1 h2 h3 by blast
qed

text \<open>
  C3. \<^verbatim>\<open>find_nearest_toilet\<close> on the agent of a table: a name that is a known stop name
  is used directly, and the result is the first row with that name. Otherwise, on a table
  that is not empty, the name is matched against all stop names by the highest similarity
  score: the result is \<^verbatim>\<open>None\<close> exactly when the highest score is below 60, and
  otherwise it is the row of a stop name that has the highest score.
\<close>

theorem find_nearest_toilet_matching:
  "(location \<in> set (stop_names (init rows)) \<longrightarrow>
      fst (find_nearest_toilet E (init rows) location) = row_of_stop (init rows) location \<and>
      (\<exists>row\<in>set rows. stop_name row = location \<and>
         row_of_stop (init rows) location = Inr (Some (row_info row)))) \<and>
   (location \<notin> set (stop_names (init rows)) \<and> rows \<noteq> [] \<longrightarrow>
      (fst (find_nearest_toilet E (init rows) location) = Inr None \<longleftrightarrow>
         Max (scorer E location ` set (stop_names (init rows))) < 60) \<and>
      (60 \<le> Max (scorer E location ` set (stop_names (init rows))) \<longrightarrow>
         (\<exists>row\<in>set rows.
            scorer E location (stop_name row) = Max (scorer E location ` set (stop_names (init rows))) \<and>
            row_of_stop (init rows) (stop_name row) = Inr (Some (row_info row)) \<and>
            fst (find_nearest_toilet E (init rows) location) = Inr (Some (row_info row)))))"
proof (intro conjI impI)
  assume "location \<in> set (stop_names (init rows))"
  then show "fst (find_nearest_toilet E (init rows) location) = row_of_stop (init rows) location"
    by (simp add: find_nearest_toilet_value)
next
  assume "location \<in> set (stop_names (init rows))"
  then show "\<exists>row\<in>set rows. stop_name row = location \<and>
         row_of_stop (init rows) location = Inr (Some (row_info row))"
    by (rule row_of_known_stop)
next
  assume a: "location \<notin> set (stop_names (init rows)) \<and> rows \<noteq> []"
  then have "stop_names (init rows) \<noteq> []" by (simp add: init_def)
  from first_maximum_exists [OF this, of "scorer E location"]
  obtain pre b post where d: "stop_names (init rows) = pre @ b # post"
    and lt: "\<forall>x\<in>set pre. scorer E location x < scorer E location b"
    and le: "\<forall>x\<in>set post. scorer E location x \<le> scorer E location b"
    by blast
  have mx: "Max (scorer E location ` set (stop_names (init rows))) = scorer E location b"
    using d lt le by (rule first_maximum_is_Max)
  have ex: "extractOne E location (stop_names (init rows)) = Some (b, scorer E location b)"
    unfolding d using lt le by (rule extractOne_first_maximum)
  have val: "fst (find_nearest_toilet E (init rows) location) =
        (if scorer E location b < 60 then Inr None else row_of_stop (init rows) b)"
    using a ex by (simp add: find_nearest_toilet_value)
  have "b \<in> set (stop_names (init rows))" using d by simp
  from row_of_known_stop [OF this] obtain row where row: "row \<in> set rows" "stop_name row = b"
    "row_of_stop (init rows) b = Inr (Some (row_info row))" by blast
  show "(fst (find_nearest_toilet E (init rows) location) = Inr None) =
        (Max (scorer E location ` set (stop_names (init rows))) < 60)"
    using val mx row by simp
  assume "60 \<le> Max (scorer E location ` set (stop_names (init rows)))"
  then have "fst (find_nearest_toilet E (init rows) location) = Inr (Some (row_info row))"
    using val mx row by simp
  then show "\<exists>row\<in>set rows.
            scorer E location (stop_name row) = Max (scorer E location ` set (stop_names (init rows))) \<and>
            row_of_stop (init rows) (stop_name row) = Inr (Some (row_info row)) \<and>
            fst (find_nearest_toilet E (init rows) location) = Inr (Some (row_info row))"
    using row mx by (intro bexI [of _ row]) simp_all
qed

theorem find_nearest_toilet_matching_witness:
  "''Mumbai'' \<notin> set (stop_names (init sample_df)) \<and> sample_df \<noteq> [] \<and>
   (fst (find_nearest_toilet demo_env (init sample_df) ''Mumbai'') = Inr None) =
     (Max (scorer demo_env ''Mumbai'' ` set (stop_names (init sample_df))) < 60) \<and>
   fst (find_nearest_toilet demo_env (init sample_df) ''Mumbai'') = Inr None"
proof -
  have h1: "''Mumbai'' \<notin> set (stop_names (init sample_df))" by code_simp
  have h2: "sample_df \<noteq> []" by (simp add: sample_df_def)
  have f: "fst (find_nearest_toilet demo_env (init sample_df) ''Mumbai'') = Inr None" by code_simp
  show ?thesis
    using find_nearest_toilet_matching [of "''Mumbai''" sample_df demo_env] h1 h2 f by blast
qed

text \<open>
  C4. When the recogniser finds no location entity (and no stop name is the empty
  string), \<^verbatim>\<open>extract_location\<close> scores the filtered query against every stop name with
  \<^verbatim>\<open>partial_ratio\<close>. It returns \<^verbatim>\<open>None\<close> exactly when no score exceeds 70, and it
  returns a stop name exactly when that name scores above 70, every name before it in the
  list scores strictly less and every name after it scores at most as much: the first
  name with the maximum score.
\<close>

theorem fuzzy_fallback_first_maximum:
  assumes "ner_locations E query = []"
      and "[] \<notin> set (stop_names self)"
  shows "(fst (extract_location E self query) = None \<longleftrightarrow>
            (\<forall>sn\<in>set (stop_names self). stop_score E query sn \<le> 70)) \<and>
         (\<forall>b. fst (extract_location E self query) = Some b \<longleftrightarrow>
            70 < stop_score E query b \<and>
            (\<exists>pre post. stop_names self = pre @ b # post \<and>
               (\<forall>x\<in>set pre. stop_score E query x < stop_score E query b) \<and>
               (\<forall>x\<in>set post. stop_score E query x \<le> stop_score E query b)))"
proof (cases "\<forall>sn\<in>set (stop_names self). stop_score E query sn \<le> 70")
  case True
  then have "fuzzy_loop E (filtered_tokens_of E query) (stop_names self) (None, 0) = (None, 0)"
    by (intro fuzzy_loop_keeps) (simp add: stop_score_def)
  then have none: "fst (extract_location E self query) = None"
    by (simp add: extract_location_fallback [OF assms(1)])
  have "\<not> (70 < stop_score E query b \<and>
            (\<exists>pre post. stop_names self = pre @ b # post \<and>
               (\<forall>x\<in>set pre. stop_score E query x < stop_score E query b) \<and>
               (\<forall>x\<in>set post. stop_score E query x \<le> stop_score E query b)))" for b
  proof
    assume a: "70 < stop_score E query b \<and>
            (\<exists>pre post. stop_names self = pre @ b # post \<and>
               (\<forall>x\<in>set pre. stop_score E query x < stop_score E query b) \<and>
               (\<forall>x\<in>set post. stop_score E query x \<le> stop_score E query b))"
    then have "b \<in> set (stop_names self)" by auto
    then show False using True a by fastforce
  qed
  then show ?thesis using True none by simp
next
  case False
  then obtain sn where sn: "sn \<in> set (stop_names self)" "70 < stop_score E query sn" by fastforce
  then have "stop_names self \<noteq> []" by auto
  from first_maximum_exists [OF this, of "stop_score E query"]
  obtain pre b0 post where d: "stop_names self = pre @ b0 # post"
    and lt: "\<forall>x\<in>set pre. stop_score E query x < stop_score E query b0"
    and le: "\<forall>x\<in>set post. stop_score E query x \<le> stop_score E query b0"
    by blast
  have "stop_score E query sn \<le> stop_score E query b0" using sn(1) d lt le by fastforce
  then have big: "70 < stop_score E query b0" using sn(2) by simp
  have "fuzzy_loop E (filtered_tokens_of E query) (pre @ b0 # post) (None, 0)
        = (Some b0, partial_ratio E (filtered_tokens_of E query) (str_lower E b0))"
    using lt le big by (intro fuzzy_loop_first_maximum) (simp_all add: stop_score_def)
  moreover have "b0 \<noteq> []" using d assms(2) by auto
  ultimately have some: "fst (extract_location E self query) = Some b0"
    using d by (simp add: extract_location_fallback [OF assms(1)])
  have "(fst (extract_location E self query) = Some b) =
        (70 < stop_score E query b \<and>
            (\<exists>pre post. stop_names self = pre @ b # post \<and>
               (\<forall>x\<in>set pre. stop_score E query x < stop_score E query b) \<and>
               (\<forall>x\<in>set post. stop_score E query x \<le> stop_score E query b)))" for b
  proof
    assume "fst (extract_location E self query) = Some b"
    then have "b = b0" using some by simp
    then show "70 < stop_score E query b \<and>
            (\<exists>pre post. stop_names self = pre @ b # post \<and>
               (\<forall>x\<in>set pre. stop_score E query x < stop_score E query b) \<and>
               (\<forall>x\<in>set post. stop_score E query x \<le> stop_score E query b))"
      using big d lt le by blast
  next
    assume "70 < stop_score E query b \<and>
            (\<exists>pre post. stop_names self = pre @ b # post \<and>
               (\<forall>x\<in>set pre. stop_score E query x < stop_score E query b) \<and>
               (\<forall>x\<in>set post. stop_score E query x \<le> stop_score E query b))"
    then obtain pre' post' where d': "stop_names self = pre' @ b # post'"
      and lt': "\<forall>x\<in>set pre'. stop_score E query x < stop_score E query b"
      and le': "\<forall>x\<in>set post'. stop_score E query x \<le> stop_score E query b"
      by blast
    from first_maximum_unique [OF d lt le d' lt' le'] have "b = b0" by simp
    then show "fst (extract_location E self query) = Some b" using some by simp
  qed
  then show ?thesis using False some by simp
qed

theorem fuzzy_fallback_first_maximum_witness:
  "ner_locations demo_env ''where is a toilet near hauz khas'' = [] \<and>
   [] \<notin> set (stop_names (init sample_df)) \<and>
   fst (extract_location demo_env (init sample_df) ''where is a toilet near hauz khas'') = Some ''Hauz Khas'' \<and>
   70 < stop_score demo_env ''where is a toilet near hauz khas'' ''Hauz Khas'' \<and>
   (\<exists>pre post. stop_names (init sample_df) = pre @ ''Hauz Khas'' # post \<and>
      (\<forall>x\<in>set pre. stop_score demo_env ''where is a toilet near hauz khas'' x
                      < stop_score demo_env ''where is a toilet near hauz khas'' ''Hauz Khas'') \<and>
      (\<forall>x\<in>set post. stop_score demo_env ''where is a toilet near hauz khas'' x
                      \<le> stop_score demo_env ''where is a toilet near hauz khas'' ''Hauz Khas''))"
proof -
  have h1: "ner_locations demo_env ''where is a toilet near hauz khas'' = []" by code_simp
  have h2: "[] \<notin> set (stop_names (init sample_df))" by code_simp
  have e: "fst (extract_location demo_env (init sample_df) ''where is a toilet near hauz khas'') = Some ''Hauz Khas''"
    by code_simp
  show ?thesis
    using fuzzy_fallback_first_maximum [OF h1 h2] h1 h2 e by blast
qed

text \<open>
  C7, as stated: every result has a matched-record and a link component, present with the
  value \<^verbatim>\<open>None\<close> on failure. The failure dictionary for the empty query has the keys
  \<^verbatim>\<open>success\<close> and \<^verbatim>\<open>message\<close> only; \<^verbatim>\<open>directions_link\<close> and the record keys
  are absent.
\<close>

theorem failure_result_keys_counterexample:
  "fst (process_query demo_env (init sample_df) []) = Inr no_location_result \<and>
   map fst (no_location_result :: string pydict) = [''success'', ''message''] \<and>
   map_of (no_location_result :: string pydict) ''directions_link'' = None \<and>
   map_of (no_location_result :: string pydict) ''stop_name'' = None \<and>
   map_of (no_location_result :: string pydict) ''washroom_id'' = None"
proof -
  have "fst (process_query demo_env (init sample_df) []) = Inr no_location_result" by code_simp
  then show ?thesis by (simp add: no_location_result_def)
qed

text \<open>
  C7, amended: every dictionary that \<^verbatim>\<open>process_query\<close> returns has one of two shapes.
  A failure has exactly the keys \<^verbatim>\<open>success\<close> (false) and \<^verbatim>\<open>message\<close> (a string). A
  success has exactly the keys \<^verbatim>\<open>success\<close> (true), \<^verbatim>\<open>stop_name\<close>, \<^verbatim>\<open>stop_lat\<close>,
  \<^verbatim>\<open>stop_lon\<close>, \<^verbatim>\<open>washroom_id\<close>, \<^verbatim>\<open>washroom_lat\<close>, \<^verbatim>\<open>washroom_lon\<close>,
  \<^verbatim>\<open>washroom_address\<close>, \<^verbatim>\<open>distance\<close>, \<^verbatim>\<open>directions_link\<close> and \<^verbatim>\<open>message\<close>,
  with strings and numbers as values.
\<close>

theorem result_shape:
  assumes "fst (process_query E self query) = Inr res"
  shows "(\<exists>msg. res = [(''success'', PBool False), (''message'', PStr msg)]) \<or>
         (\<exists>name slat slon wid wlat wlon addr dist link msg.
            res = [(''success'', PBool True), (''stop_name'', PStr name),
                   (''stop_lat'', PNum slat), (''stop_lon'', PNum slon),
                   (''washroom_id'', PStr wid), (''washroom_lat'', PNum wlat),
                   (''washroom_lon'', PNum wlon), (''washroom_address'', PStr addr),
                   (''distance'', PNum dist), (''directions_link'', PStr link),
                   (''message'', PStr msg)])"
proof -
  from assms consider "res = no_location_result"
    | location where "res = no_matching_stop_result location"
    | ti where "res = success_result E ti (link_of E ti)"
    by (auto simp: process_query_value split: option.splits if_splits sum.splits)
  then show ?thesis
  proof cases
    case 1
    then show ?thesis by (simp add: no_location_result_def)
  next
    case 2
    then show ?thesis by (simp add: no_matching_stop_result_def)
  next
    case 3
    then show ?thesis by (simp add: success_result_def)
  qed
qed

theorem result_shape_witness:
  "fst (process_query demo_env (init sample_df) ''please help me'') = Inr no_location_result \<and>
   (\<exists>msg. (no_location_result :: string pydict) = [(''success'', PBool False), (''message'', PStr msg)])"
proof -
  have h: "fst (process_query demo_env (init sample_df) ''please help me'') = Inr no_location_result"
    by code_simp
  have "\<not> (\<exists>name slat slon wid wlat wlon addr dist link msg.
            (no_location_result :: string pydict) = [(''success'', PBool True), (''stop_name'', PStr name),
                   (''stop_lat'', PNum slat), (''stop_lon'', PNum slon),
                   (''washroom_id'', PStr wid), (''washroom_lat'', PNum wlat),
                   (''washroom_lon'', PNum wlon), (''washroom_address'', PStr addr),
                   (''distance'', PNum dist), (''directions_link'', PStr link),
                   (''message'', PStr msg)])"
    by (simp add: no_location_result_def)
  then show ?thesis using result_shape [OF h] h by blast
qed

text \<open>
  C10. When the recogniser finds no location entity, a name that \<^verbatim>\<open>extract_location\<close>
  returns is one of the known stop names, \<^verbatim>\<open>find_nearest_toilet\<close> takes it directly
  (its value is the row selected for that very name), and \<^verbatim>\<open>process_query\<close> does not
  return the "no matching stop" failure, for any name in the message.
\<close>

theorem fallback_names_are_known_stops:
  assumes "ner_locations E query = []"
  shows "(\<forall>name. fst (extract_location E self query) = Some name \<longrightarrow>
            name \<in> set (stop_names self) \<and>
            fst (find_nearest_toilet E self name) = row_of_stop self name) \<and>
         (\<forall>location. fst (process_query E self query) \<noteq> Inr (no_matching_stop_result location))"
proof -
  have mem: "name \<in> set (stop_names self)" if "fst (extract_location E self query) = Some name" for name
  proof -
    from that have "fst (fuzzy_loop E (filtered_tokens_of E query) (stop_names self) (None, 0)) = Some name"
      by (auto simp: extract_location_fallback [OF assms] split: option.splits if_splits)
    from fuzzy_loop_member [OF this] show ?thesis by simp
  qed
  have exact: "fst (find_nearest_toilet E self name) = row_of_stop self name"
    if "name \<in> set (stop_names self)" for name
    using that by (simp add: find_nearest_toilet_value)
  have "fst (process_query E self query) \<noteq> Inr (no_matching_stop_result location)" for location
  proof (cases "fst (extract_location E self query)")
    case None
    then show ?thesis by (simp add: process_query_value)
  next
    case (Some name)
    have "row_of_stop self name \<noteq> Inr None"
      by (simp add: row_of_stop_def split: option.splits)
    then show ?thesis using Some exact [OF mem [OF Some]]
      by (auto simp: process_query_value split: sum.splits option.splits)
  qed
  then show ?thesis using mem exact by blast
qed

theorem fallback_names_are_known_stops_witness:
  "ner_locations demo_env ''where is a toilet near hauz khas'' = [] \<and>
   fst (extract_location demo_env (init sample_df) ''where is a toilet near hauz khas'') = Some ''Hauz Khas'' \<and>
   ''Hauz Khas'' \<in> set (stop_names (init sample_df)) \<and>
   fst (find_nearest_toilet demo_env (init sample_df) ''Hauz Khas'') = row_of_stop (init sample_df) ''Hauz Khas'' \<and>
   fst (process_query demo_env (init sample_df) ''where is a toilet near hauz khas'') \<noteq>
     Inr (no_matching_stop_result ''Hauz Khas'')"
proof -
  have h: "ner_locations demo_env ''where is a toilet near hauz khas'' = []" by code_simp
  have e: "fst (extract_location demo_env (init sample_df) ''where is a toilet near hauz khas'') = Some ''Hauz Khas''"
    by code_simp
  show ?thesis
    using fallback_names_are_known_stops [OF h, of "init sample_df"] h e by blast
qed

end
